theory Spec2Isabelle
  imports Complex_Main "HOL-Library.Sublist" "HOL-Library.Signed_Division" "HOL-Library.Log_Nat"
begin

section \<open>PanInsight: image viewer, upload validation and report generation\<close>

text \<open>
  The development embeds three parts of the application:
  \<^item> the component \<^verbatim>\<open>ImageViewer\<close> (\<^verbatim>\<open>ImageViewer.tsx\<close>): its React state and
    every handler that updates it, the transform of the rendered image and the
    export \<^verbatim>\<open>handleSave\<close>;
  \<^item> the upload page \<^verbatim>\<open>UploadScan\<close>: \<^verbatim>\<open>validateFile\<close>, \<^verbatim>\<open>handleFileSelect\<close>;
  \<^item> the report object built by \<^verbatim>\<open>handleAnalyze\<close>.

  Conventions. A JavaScript \<^verbatim>\<open>number\<close> that holds a measure (zoom, contrast,
  brightness, pointer coordinates) is a \<^typ>\<open>real\<close>. In the handlers of the state the
  arithmetic is exact; in the export, where a product is cut to a whole number of pixels,
  products are rounded to IEEE doubles. A number that only ever holds an integer (rotation in
  degrees, a pixel count, a file size) is an \<^typ>\<open>int\<close> or a \<^typ>\<open>nat\<close>. Each handler
  is a function from the component state before the event to the state after it; a
  state setter with an updater function (\<^verbatim>\<open>setViewerState(prev => ...)\<close>) updates the
  field it names and leaves the others.
\<close>

subsection \<open>State of the viewer\<close>

text \<open>\<^verbatim>\<open>interface ViewerState { zoom; rotation; contrast; brightness }\<close>\<close>

record ViewerState =
  zoom :: real
  rotation :: int
  contrast :: real
  brightness :: real

text \<open>The object \<^verbatim>\<open>{ x, y }\<close> of \<^verbatim>\<open>dragStart\<close> and \<^verbatim>\<open>panOffset\<close>.\<close>

record vec2 =
  vx :: real
  vy :: real

text \<open>The six \<^verbatim>\<open>useState\<close> cells of the component.\<close>

record viewer =
  viewerState :: ViewerState
  isDragging :: bool
  dragStart :: vec2
  panOffset :: vec2
  isImageLoaded :: bool
  isImageError :: bool

definition initialViewer :: viewer where
  "initialViewer =
     \<lparr> viewerState = \<lparr> zoom = 1, rotation = 0, contrast = 100, brightness = 100 \<rparr>,
       isDragging = False,
       dragStart = \<lparr> vx = 0, vy = 0 \<rparr>,
       panOffset = \<lparr> vx = 0, vy = 0 \<rparr>,
       isImageLoaded = False,
       isImageError = False \<rparr>"

subsection \<open>Discrete commands\<close>

datatype direction = In | Out

text \<open>
  \<^verbatim>\<open>zoom: direction === 'in' ? Math.min(prev.zoom * 1.2, 5) : Math.max(prev.zoom / 1.2, 0.1)\<close>
\<close>

definition handleZoom :: "direction \<Rightarrow> viewer \<Rightarrow> viewer" where
  "handleZoom d s =
     s\<lparr> viewerState := (viewerState s)\<lparr> zoom :=
          (if d = In then min (zoom (viewerState s) * 1.2) 5
           else max (zoom (viewerState s) / 1.2) 0.1) \<rparr> \<rparr>"

text \<open>A sequence of zoom commands, applied from left to right.\<close>

fun zoomAll :: "direction list \<Rightarrow> viewer \<Rightarrow> viewer" where
  "zoomAll [] s = s"
| "zoomAll (d # ds) s = zoomAll ds (handleZoom d s)"

text \<open>
  JavaScript's \<^verbatim>\<open>%\<close> takes the sign of the dividend; on integers it is \<open>smod\<close>.
  \<^verbatim>\<open>rotation: (prev.rotation + 90) % 360\<close>
\<close>

definition handleRotate :: "viewer \<Rightarrow> viewer" where
  "handleRotate s =
     s\<lparr> viewerState := (viewerState s)\<lparr> rotation :=
          (rotation (viewerState s) + 90) smod 360 \<rparr> \<rparr>"

definition handleContrastChange :: "real \<Rightarrow> viewer \<Rightarrow> viewer" where
  "handleContrastChange v s = s\<lparr> viewerState := (viewerState s)\<lparr> contrast := v \<rparr> \<rparr>"

definition handleBrightnessChange :: "real \<Rightarrow> viewer \<Rightarrow> viewer" where
  "handleBrightnessChange v s = s\<lparr> viewerState := (viewerState s)\<lparr> brightness := v \<rparr> \<rparr>"

text \<open>
  \<^verbatim>\<open>setViewerState({ zoom: 1, rotation: 0, contrast: 100, brightness: 100 });
  setPanOffset({ x: 0, y: 0 });\<close>
\<close>

definition handleReset :: "viewer \<Rightarrow> viewer" where
  "handleReset s =
     s\<lparr> viewerState := \<lparr> zoom = 1, rotation = 0, contrast = 100, brightness = 100 \<rparr>,
        panOffset := \<lparr> vx = 0, vy = 0 \<rparr> \<rparr>"

subsection \<open>Pointer and touch tracker\<close>

text \<open>The position a mouse event or a touch point carries.\<close>

record pointer =
  clientX :: real
  clientY :: real

definition handleMouseDown :: "pointer \<Rightarrow> viewer \<Rightarrow> viewer" where
  "handleMouseDown e s =
     (if zoom (viewerState s) > 1
      then s\<lparr> isDragging := True,
              dragStart := \<lparr> vx = clientX e - vx (panOffset s),
                             vy = clientY e - vy (panOffset s) \<rparr> \<rparr>
      else s)"

definition handleMouseMove :: "pointer \<Rightarrow> viewer \<Rightarrow> viewer" where
  "handleMouseMove e s =
     (if isDragging s \<and> zoom (viewerState s) > 1
      then s\<lparr> panOffset := \<lparr> vx = clientX e - vx (dragStart s),
                             vy = clientY e - vy (dragStart s) \<rparr> \<rparr>
      else s)"

definition handleMouseUp :: "viewer \<Rightarrow> viewer" where
  "handleMouseUp s = s\<lparr> isDragging := False \<rparr>"

text \<open>
  A touch event is its list \<^verbatim>\<open>e.touches\<close>. Both touch handlers read
  \<^verbatim>\<open>e.touches[0]\<close> only behind the test \<^verbatim>\<open>e.touches.length === 1\<close>.
\<close>

definition handleTouchStart :: "pointer list \<Rightarrow> viewer \<Rightarrow> viewer" where
  "handleTouchStart touches s =
     (if zoom (viewerState s) > 1 \<and> length touches = 1
      then s\<lparr> isDragging := True,
              dragStart := \<lparr> vx = clientX (touches ! 0) - vx (panOffset s),
                             vy = clientY (touches ! 0) - vy (panOffset s) \<rparr> \<rparr>
      else s)"

definition handleTouchMove :: "pointer list \<Rightarrow> viewer \<Rightarrow> viewer" where
  "handleTouchMove touches s =
     (if isDragging s \<and> zoom (viewerState s) > 1 \<and> length touches = 1
      then s\<lparr> panOffset := \<lparr> vx = clientX (touches ! 0) - vx (dragStart s),
                             vy = clientY (touches ! 0) - vy (dragStart s) \<rparr> \<rparr>
      else s)"

definition handleTouchEnd :: "viewer \<Rightarrow> viewer" where
  "handleTouchEnd s = s\<lparr> isDragging := False \<rparr>"

text \<open>One gesture after the press: the move events of the mouse, or of the touch.\<close>

fun mouseMoves :: "pointer list \<Rightarrow> viewer \<Rightarrow> viewer" where
  "mouseMoves [] s = s"
| "mouseMoves (e # es) s = mouseMoves es (handleMouseMove e s)"

fun touchMoves :: "pointer list list \<Rightarrow> viewer \<Rightarrow> viewer" where
  "touchMoves [] s = s"
| "touchMoves (t # ts) s = touchMoves ts (handleTouchMove t s)"

subsection \<open>Keyboard router\<close>

text \<open>
  \<^verbatim>\<open>handleKeyDown\<close>: the first argument says whether \<^verbatim>\<open>e.target === document.body\<close>,
  the second is \<^verbatim>\<open>e.key\<close>. \<^verbatim>\<open>Escape\<close> calls \<^verbatim>\<open>onClose\<close>, which belongs to the
  parent and leaves the state of the viewer as it is.
\<close>

definition handleKeyDown :: "bool \<Rightarrow> string \<Rightarrow> viewer \<Rightarrow> viewer" where
  "handleKeyDown targetIsBody key s =
     (if \<not> targetIsBody then s
      else if key = ''+'' \<or> key = ''='' then handleZoom In s
      else if key = ''-'' then handleZoom Out s
      else if key = ''r'' \<or> key = ''R'' then handleRotate s
      else if key = ''0'' then handleReset s
      else s)"

subsection \<open>Events of the viewer\<close>

text \<open>
  Every event the component binds a handler to: the buttons and sliders of the side
  panel, the mouse and touch events of the image container (\<^verbatim>\<open>onMouseLeave\<close> is bound
  to \<^verbatim>\<open>handleMouseUp\<close>), the key presses, the load and error events of the image, and
  the save button, whose handler sets no state.
\<close>

datatype event =
    ZoomClick direction
  | RotateClick
  | ContrastSlider real
  | BrightnessSlider real
  | ResetClick
  | MouseDown pointer
  | MouseMove pointer
  | MouseUp
  | MouseLeave
  | TouchStart "pointer list"
  | TouchMove "pointer list"
  | TouchEnd
  | KeyDown bool string
  | ImageLoad
  | ImageError
  | SaveClick

fun step :: "viewer \<Rightarrow> event \<Rightarrow> viewer" where
  "step s (ZoomClick d) = handleZoom d s"
| "step s RotateClick = handleRotate s"
| "step s (ContrastSlider v) = handleContrastChange v s"
| "step s (BrightnessSlider v) = handleBrightnessChange v s"
| "step s ResetClick = handleReset s"
| "step s (MouseDown e) = handleMouseDown e s"
| "step s (MouseMove e) = handleMouseMove e s"
| "step s MouseUp = handleMouseUp s"
| "step s MouseLeave = handleMouseUp s"
| "step s (TouchStart ts) = handleTouchStart ts s"
| "step s (TouchMove ts) = handleTouchMove ts s"
| "step s TouchEnd = handleTouchEnd s"
| "step s (KeyDown b k) = handleKeyDown b k s"
| "step s ImageLoad = s\<lparr> isImageLoaded := True \<rparr>"
| "step s ImageError = s\<lparr> isImageError := True \<rparr>"
| "step s SaveClick = s"

text \<open>The state after a sequence of events, starting from the state at mount.\<close>

definition run :: "event list \<Rightarrow> viewer" where
  "run es = foldl step initialViewer es"

subsection \<open>Render\<close>

text \<open>
  The component renders the image element only while \<^verbatim>\<open>isImageError\<close> is false; after
  an image error it renders a placeholder and no image, hence no transform and no
  filter (\<open>None\<close>). The style of the image element is
  \<^verbatim>\<open>transform: `scale(${zoom}) rotate(${rotation}deg)
     translate(${panOffset.x / zoom}px, ${panOffset.y / zoom}px)`\<close> and
  \<^verbatim>\<open>filter: `contrast(${contrast}%) brightness(${brightness}%)`\<close>.
  The strings are kept as the lists of functions they spell. (The zoom of a state the
  component can reach is never 0, so the division is the division of the source.)
\<close>

datatype transformFn = Scale real | RotateDeg int | TranslatePx real real

datatype filterFn = ContrastPct real | BrightnessPct real

definition imgTransform :: "viewer \<Rightarrow> transformFn list option" where
  "imgTransform s =
     (if isImageError s then None
      else Some [ Scale (zoom (viewerState s)),
                  RotateDeg (rotation (viewerState s)),
                  TranslatePx (vx (panOffset s) / zoom (viewerState s))
                              (vy (panOffset s) / zoom (viewerState s)) ])"

definition imgFilter :: "viewer \<Rightarrow> filterFn list option" where
  "imgFilter s =
     (if isImageError s then None
      else Some [ ContrastPct (contrast (viewerState s)),
                  BrightnessPct (brightness (viewerState s)) ])"

subsection \<open>Export\<close>

text \<open>
  The image element behind \<^verbatim>\<open>imageRef\<close>: its natural size in pixels and the source it
  shows.
\<close>

record image =
  naturalWidth :: nat
  naturalHeight :: nat
  img_src :: string

text \<open>The calls \<^verbatim>\<open>handleSave\<close> makes on the 2D context, in order.\<close>

datatype ctxCall =
    CtxSave
  | CtxTranslate real real
  | CtxRotate real
  | CtxDrawImage image real real real real
  | CtxRestore

text \<open>
  The canvas that \<^verbatim>\<open>toDataURL\<close> encodes: its size in pixels, the filter of its
  context and the calls drawn into it.
\<close>

record canvas =
  canvas_width :: nat
  canvas_height :: nat
  ctx_filter :: "filterFn list"
  ctx_calls :: "ctxCall list"

text \<open>
  The size of the canvas is a whole number of pixels, so here the rounding of a product
  decides the result, and the products of \<^verbatim>\<open>handleSave\<close> are rounded as the platform
  rounds them: to the nearest IEEE double, ties to the even significand.
  \<open>ulp v\<close> is the distance between neighbouring doubles at \<open>v\<close>: with
  \<open>2^e \<le> \<bar>v\<bar> < 2^(e+1)\<close> it is \<open>2^(e - 52)\<close>, and \<open>2^(-1074)\<close> below the
  smallest normal number (\<open>bitlen n\<close> is the number of binary digits of \<open>n\<close>).
  \<open>toDouble v\<close> is the double nearest to \<open>v\<close>, for \<open>v\<close> below the overflow threshold
  \<open>2^1024\<close>; the product \<^verbatim>\<open>a * b\<close> of two doubles is \<open>toDouble (a * b)\<close>.
\<close>

definition roundHalfEven :: "real \<Rightarrow> int" where
  "roundHalfEven y =
     (if y - of_int \<lfloor>y\<rfloor> < 1 / 2 then \<lfloor>y\<rfloor>
      else if 1 / 2 < y - of_int \<lfloor>y\<rfloor> then \<lfloor>y\<rfloor> + 1
      else if even \<lfloor>y\<rfloor> then \<lfloor>y\<rfloor> else \<lfloor>y\<rfloor> + 1)"

definition ulp :: "real \<Rightarrow> real" where
  "ulp v = 2 powi (max (bitlen \<lfloor>\<bar>v\<bar> * 2 ^ 1074\<rfloor>) 53 - 1127)"

definition toDouble :: "real \<Rightarrow> real" where
  "toDouble v = sgn v * (of_int (roundHalfEven (\<bar>v\<bar> / ulp v)) * ulp v)"

text \<open>
  \<^verbatim>\<open>canvas.width\<close> and \<^verbatim>\<open>canvas.height\<close> are attributes of type \<^verbatim>\<open>unsigned long\<close>.
  Assigning a number to one converts it: the fraction is dropped (towards zero) and
  the integer is reduced modulo \<open>2^32\<close>; a result above 2147483647 is replaced by the
  default of the attribute (300 for the width, 150 for the height).
\<close>

definition toUnsignedLong :: "real \<Rightarrow> nat" where
  "toUnsignedLong v = nat ((if 0 \<le> v then \<lfloor>v\<rfloor> else \<lceil>v\<rceil>) mod 2 ^ 32)"

definition setDimension :: "nat \<Rightarrow> real \<Rightarrow> nat" where
  "setDimension dflt v =
     (if toUnsignedLong v \<le> 2147483647 then toUnsignedLong v else dflt)"

text \<open>
  \<^verbatim>\<open>handleSave\<close>. The first argument after the state is \<^verbatim>\<open>imageRef.current\<close>
  (\<open>None\<close> for \<^verbatim>\<open>null\<close>), the second says whether \<^verbatim>\<open>getContext('2d')\<close> returned a
  context. The result is the canvas whose PNG encoding is handed to \<^verbatim>\<open>onSave\<close>, or
  \<open>None\<close> when the handler returns early. \<^verbatim>\<open>scaledWidth\<close> and \<^verbatim>\<open>scaledHeight\<close>
  are the products as doubles. \<^verbatim>\<open>ctx.translate\<close> reads the size back from
  the canvas; \<^verbatim>\<open>ctx.drawImage\<close> uses \<^verbatim>\<open>scaledWidth\<close> and \<^verbatim>\<open>scaledHeight\<close>.
\<close>

definition handleSave :: "viewer \<Rightarrow> image option \<Rightarrow> bool \<Rightarrow> canvas option" where
  "handleSave s imageRef hasCtx =
     (case imageRef of
        None \<Rightarrow> None
      | Some img \<Rightarrow>
          if hasCtx then
            (let scaledWidth = toDouble (real (naturalWidth img) * zoom (viewerState s));
                 scaledHeight = toDouble (real (naturalHeight img) * zoom (viewerState s));
                 w = setDimension 300 scaledWidth;
                 h = setDimension 150 scaledHeight
             in Some \<lparr> canvas_width = w,
                       canvas_height = h,
                       ctx_filter = [ ContrastPct (contrast (viewerState s)),
                                      BrightnessPct (brightness (viewerState s)) ],
                       ctx_calls =
                         (if rotation (viewerState s) = 0
                          then [ CtxDrawImage img 0 0 scaledWidth scaledHeight ]
                          else [ CtxSave,
                                 CtxTranslate (real w / 2) (real h / 2),
                                 CtxRotate (real_of_int (rotation (viewerState s)) * pi / 180),
                                 CtxDrawImage img (- scaledWidth / 2) (- scaledHeight / 2)
                                   scaledWidth scaledHeight,
                                 CtxRestore ]) \<rparr>)
          else None)"

section \<open>Upload page\<close>

subsection \<open>Strings and arrays\<close>

text \<open>
  A string is a list of characters. \<^verbatim>\<open>toLowerCase\<close> maps the letters A to Z to a to z
  and leaves every other character (the model covers names written in ASCII).
\<close>

definition lowerChar :: "char \<Rightarrow> char" where
  "lowerChar c =
     (if 65 \<le> (of_char c :: nat) \<and> (of_char c :: nat) \<le> 90
      then char_of ((of_char c :: nat) + 32) else c)"

definition toLowerCase :: "string \<Rightarrow> string" where
  "toLowerCase s = map lowerChar s"

text \<open>\<^verbatim>\<open>s.endsWith(t)\<close>: the last \<open>length t\<close> characters of \<open>s\<close> are \<open>t\<close>.\<close>

definition endsWith :: "string \<Rightarrow> string \<Rightarrow> bool" where
  "endsWith s t = (length t \<le> length s \<and> drop (length s - length t) s = t)"

text \<open>\<^verbatim>\<open>s.startsWith(t)\<close>\<close>

definition startsWith :: "string \<Rightarrow> string \<Rightarrow> bool" where
  "startsWith s t = (take (length t) s = t)"

text \<open>\<^verbatim>\<open>Array.prototype.some\<close> and \<^verbatim>\<open>Array.prototype.includes\<close>\<close>

fun array_some :: "('a \<Rightarrow> bool) \<Rightarrow> 'a list \<Rightarrow> bool" where
  "array_some p [] = False"
| "array_some p (x # xs) = (if p x then True else array_some p xs)"

fun array_includes :: "'a list \<Rightarrow> 'a \<Rightarrow> bool" where
  "array_includes [] v = False"
| "array_includes (x # xs) v = (if x = v then True else array_includes xs v)"

subsection \<open>File validation and selection\<close>

text \<open>The fields of a \<^verbatim>\<open>File\<close> the page reads: \<^verbatim>\<open>name\<close>, \<^verbatim>\<open>type\<close>, \<^verbatim>\<open>size\<close>.\<close>

record File =
  file_name :: string
  file_type :: string
  file_size :: nat

definition acceptedTypes :: "string list" where
  "acceptedTypes = [''.dcm'', ''.jpg'', ''.jpeg'', ''.png'']"

definition acceptedMimeTypes :: "string list" where
  "acceptedMimeTypes =
     [''image/jpeg'', ''image/jpg'', ''image/png'', ''application/dicom'',
      ''application/octet-stream'']"

definition validateFile :: "File \<Rightarrow> bool" where
  "validateFile f =
     (let isValidType =
            (array_some (\<lambda>type. endsWith (toLowerCase (file_name f)) type) acceptedTypes
             \<or> array_includes acceptedMimeTypes (file_type f));
          isValidSize = (file_size f \<le> 50 * 1024 * 1024)
      in isValidType \<and> isValidSize)"

text \<open>
  \<^verbatim>\<open>createFilePreview\<close>; the second argument is the data URL the \<^verbatim>\<open>FileReader\<close> yields
  when it is asked to read the file.
\<close>

definition createFilePreview :: "File \<Rightarrow> string \<Rightarrow> string option" where
  "createFilePreview f dataURL =
     (if endsWith (toLowerCase (file_name f)) ''.dcm'' then None
      else if startsWith (file_type f) ''image/'' then Some dataURL
      else None)"

text \<open>\<^verbatim>\<open>interface FileInfo { file; preview?; size }\<close> (\<open>info_file\<close> and \<open>info_size\<close> are its
  fields \<^verbatim>\<open>file\<close> and \<^verbatim>\<open>size\<close>)\<close>

record FileInfo =
  info_file :: File
  preview :: "string option"
  info_size :: string

text \<open>
  The state cells of \<^verbatim>\<open>UploadScan\<close>, and the messages passed to \<^verbatim>\<open>alert\<close> so far
  (oldest first).
\<close>

record upload =
  fileInfo :: "FileInfo option"
  isDragOver :: bool
  hasConsent :: bool
  isAnalyzing :: bool
  dragCounter :: int
  isPulsing :: bool
  showViewer :: bool
  alerts :: "string list"

text \<open>
  \<^verbatim>\<open>handleFileSelect\<close>. \<open>dataURL\<close> is what the reader yields for the file,
  \<open>sizeText\<close> is \<^verbatim>\<open>formatFileSize(file.size)\<close>. (The timer that clears
  \<^verbatim>\<open>isPulsing\<close> a second later is a later event.)
\<close>

definition handleFileSelect :: "File \<Rightarrow> string \<Rightarrow> string \<Rightarrow> upload \<Rightarrow> upload" where
  "handleFileSelect f dataURL sizeText s =
     (if validateFile f
      then s\<lparr> isPulsing := True,
              fileInfo := Some \<lparr> info_file = f, preview = createFilePreview f dataURL,
                                 info_size = sizeText \<rparr> \<rparr>
      else s\<lparr> alerts := alerts s @
              [''Please select a valid medical image file (.dcm, .jpg, .jpeg, .png) under 50MB.''] \<rparr>)"

subsection \<open>Report\<close>

text \<open>\<^verbatim>\<open>riskLevel: 'Low' | 'Medium' | 'High'\<close>\<close>

datatype riskLevel = Low | Medium | High

record reportData =
  scanType :: string
  analysisDate :: string
  confidence :: int
  findings :: "string list"
  recommendations :: "string list"
  riskLevel :: riskLevel
  nextSteps :: "string list"
  followUpTimeline :: string

text \<open>
  The object \<^verbatim>\<open>sampleReportData\<close>. \<open>rnd\<close> is the value of \<^verbatim>\<open>Math.random()\<close>, \<open>date\<close>
  the string \<^verbatim>\<open>toLocaleDateString\<close> returns.
\<close>

definition sampleReportData :: "FileInfo \<Rightarrow> real \<Rightarrow> string \<Rightarrow> reportData" where
  "sampleReportData fi rnd date =
     \<lparr> scanType = (if endsWith (toLowerCase (file_name (info_file fi))) ''.dcm''
                    then ''DICOM CT Scan'' else ''Medical Image''),
       analysisDate = date,
       confidence = \<lfloor>rnd * 30\<rfloor> + 70,
       findings =
         [''No significant abnormalities detected in the pancreatic region'',
          ''Normal pancreatic tissue density and structure observed'',
          ''Vascular structures appear within normal limits'',
          ''No evidence of mass lesions or calcifications'',
          ''Pancreatic duct appears normal in caliber''],
       recommendations =
         [''Continue routine monitoring as recommended by your healthcare provider'',
          ''Maintain healthy lifestyle habits including balanced diet and regular exercise'',
          ''Schedule follow-up imaging in 6-12 months as per standard protocols'',
          ''Consider annual screening if you have family history of pancreatic conditions'',
          ''Report any new symptoms to your healthcare provider promptly''],
       riskLevel = Low,
       nextSteps =
         [''Share this report with your primary care physician'',
          ''Schedule follow-up appointment within 3-6 months'',
          ''Maintain regular health check-ups'',
          ''Monitor for any new symptoms or changes'',
          ''Consider genetic counseling if family history is present''],
       followUpTimeline =
         ''Recommended follow-up in 6-12 months with repeat imaging and consultation with your healthcare provider.'' \<rparr>"

text \<open>
  \<^verbatim>\<open>handleAnalyze\<close> returns at once without a selected file or without consent;
  otherwise the report is built, stored and passed to the report page.
\<close>

definition handleAnalyze :: "upload \<Rightarrow> real \<Rightarrow> string \<Rightarrow> reportData option" where
  "handleAnalyze s rnd date =
     (case fileInfo s of
        None \<Rightarrow> None
      | Some fi \<Rightarrow> if hasConsent s then Some (sampleReportData fi rnd date) else None)"

section \<open>Theorems\<close>

subsection \<open>Zoom\<close>

lemma handleZoom_bounds:
  "0.1 \<le> zoom (viewerState s) \<Longrightarrow> zoom (viewerState s) \<le> 5 \<Longrightarrow>
   0.1 \<le> zoom (viewerState (handleZoom d s)) \<and> zoom (viewerState (handleZoom d s)) \<le> 5"
  by (cases d) (simp_all add: handleZoom_def)

lemma zoomAll_bounds:
  "0.1 \<le> zoom (viewerState s) \<Longrightarrow> zoom (viewerState s) \<le> 5 \<Longrightarrow>
   0.1 \<le> zoom (viewerState (zoomAll ds s)) \<and> zoom (viewerState (zoomAll ds s)) \<le> 5"
proof (induction ds arbitrary: s)
  case Nil
  then show ?case by simp
next
  case (Cons d ds)
  from handleZoom_bounds [OF Cons.prems] Cons.IH [of "handleZoom d s"]
  show ?case by simp
qed

text \<open>
  C1. From a zoom in [0.1, 5], every sequence of zoom commands leaves the zoom in
  [0.1, 5]. Zooming in multiplies by 1.2 and caps the result at 5, zooming out divides by
  1.2 and caps it at 0.1; at a bound the command returns the bound (the handler is a total
  function: there is no error branch).
\<close>

theorem C1_zoom_stays_in_range:
  assumes "0.1 \<le> zoom (viewerState s)" and "zoom (viewerState s) \<le> 5"
  shows "(0.1 \<le> zoom (viewerState (zoomAll ds s)) \<and> zoom (viewerState (zoomAll ds s)) \<le> 5)
       \<and> zoom (viewerState (handleZoom In s)) = min (zoom (viewerState s) * 1.2) 5
       \<and> zoom (viewerState (handleZoom Out s)) = max (zoom (viewerState s) / 1.2) 0.1
       \<and> (zoom (viewerState s) = 5 \<longrightarrow> zoom (viewerState (handleZoom In s)) = 5)
       \<and> (zoom (viewerState s) = 0.1 \<longrightarrow> zoom (viewerState (handleZoom Out s)) = 0.1)"
  using zoomAll_bounds [OF assms, of ds] by (simp add: handleZoom_def)

theorem C1_zoom_stays_in_range_witness:
  "0.1 \<le> zoom (viewerState initialViewer) \<and> zoom (viewerState initialViewer) \<le> 5
   \<and> 0.1 \<le> zoom (viewerState (zoomAll [In, In, Out] initialViewer))
   \<and> zoom (viewerState (zoomAll [In, In, Out] initialViewer)) \<le> 5
   \<and> zoom (viewerState (handleZoom In initialViewer)) = 6 / 5
   \<and> zoom (viewerState (handleZoom Out initialViewer)) = 5 / 6"
  using C1_zoom_stays_in_range [of initialViewer "[In, In, Out]"]
  by (simp add: initialViewer_def)

subsection \<open>Pan gestures while the zoom is at most 1\<close>

lemma mouseMoves_zoom_le1: "zoom (viewerState s) \<le> 1 \<Longrightarrow> mouseMoves es s = s"
  by (induction es) (simp_all add: handleMouseMove_def)

lemma touchMoves_zoom_le1: "zoom (viewerState s) \<le> 1 \<Longrightarrow> touchMoves ts s = s"
  by (induction ts) (simp_all add: handleTouchMove_def)

text \<open>
  C3. When the zoom is at most 1, a press (mouse or touch) returns the state it was
  given, so the tracker does not become Dragging and \<open>panOffset\<close> is what it was; the
  same holds after every sequence of move events that follows the press. A touch
  press sets \<open>isDragging\<close> only when the event carries exactly one touch point.
\<close>

theorem C3_pan_gesture_noop_at_zoom_le_1:
  assumes "zoom (viewerState s) \<le> 1"
  shows "handleMouseDown e s = s
       \<and> mouseMoves es (handleMouseDown e s) = s
       \<and> handleTouchStart t s = s
       \<and> touchMoves ts (handleTouchStart t s) = s
       \<and> (isDragging (handleTouchStart t' s') \<and> \<not> isDragging s' \<longrightarrow> length t' = 1)"
  using assms mouseMoves_zoom_le1 [OF assms] touchMoves_zoom_le1 [OF assms]
  by (simp add: handleMouseDown_def handleTouchStart_def)

theorem C3_pan_gesture_noop_at_zoom_le_1_witness:
  "zoom (viewerState initialViewer) \<le> 1
   \<and> panOffset (mouseMoves [\<lparr>clientX = 50, clientY = 50\<rparr>]
        (handleMouseDown \<lparr>clientX = 10, clientY = 10\<rparr> initialViewer)) = \<lparr>vx = 0, vy = 0\<rparr>
   \<and> \<not> isDragging (mouseMoves [\<lparr>clientX = 50, clientY = 50\<rparr>]
        (handleMouseDown \<lparr>clientX = 10, clientY = 10\<rparr> initialViewer))
   \<and> isDragging (handleTouchStart [\<lparr>clientX = 10, clientY = 10\<rparr>] (handleZoom In initialViewer))
   \<and> \<not> isDragging (handleZoom In initialViewer)
   \<and> length [\<lparr>clientX = 10, clientY = 10\<rparr>] = 1"
  using C3_pan_gesture_noop_at_zoom_le_1 [of initialViewer
     "\<lparr>clientX = 10, clientY = 10\<rparr>" "[\<lparr>clientX = 50, clientY = 50\<rparr>]"
     "[]" "[]" "[\<lparr>clientX = 10, clientY = 10\<rparr>]" "handleZoom In initialViewer"]
  by (simp add: initialViewer_def handleZoom_def handleTouchStart_def
        handleMouseDown_def handleMouseMove_def)

subsection \<open>Reset\<close>

text \<open>
  C5. Whatever the state before, \<open>handleReset\<close> leaves zoom 1, rotation 0, contrast
  100, brightness 100 and pan offset (0, 0); a second reset changes nothing.
\<close>

theorem C5_reset_constant_idempotent:
  "viewerState (handleReset s) = \<lparr> zoom = 1, rotation = 0, contrast = 100, brightness = 100 \<rparr>
   \<and> panOffset (handleReset s) = \<lparr> vx = 0, vy = 0 \<rparr>
   \<and> handleReset (handleReset s) = handleReset s"
  by (simp add: handleReset_def)

subsection \<open>Rotation\<close>

lemma rot_values:
  "(0 + 90) smod (360::int) = 90" "(90 + 90) smod (360::int) = 180"
  "(180 + 90) smod (360::int) = 270" "(270 + 90) smod (360::int) = 0"
  by (simp_all add: signed_modulo_int_def)

lemma rot1: "r \<in> {0, 90, 180, 270} \<Longrightarrow> (r + 90) smod (360::int) \<in> {0, 90, 180, 270}"
  by (elim insertE emptyE) (simp_all only: rot_values, simp_all)

lemma rot4:
  "r \<in> {0, 90, 180, 270} \<Longrightarrow>
   ((((r + 90) smod 360 + 90) smod 360 + 90) smod 360 + 90) smod (360::int) = r"
  by (elim insertE emptyE) (simp_all only: rot_values)

lemma handleRotate_in:
  "rotation (viewerState s) \<in> {0, 90, 180, 270} \<Longrightarrow>
   rotation (viewerState (handleRotate s)) \<in> {0, 90, 180, 270}"
  using rot1 [of "rotation (viewerState s)"] by (simp add: handleRotate_def)

lemma handleRotate_funpow_in:
  "rotation (viewerState s) \<in> {0, 90, 180, 270} \<Longrightarrow>
   rotation (viewerState ((handleRotate ^^ n) s)) \<in> {0, 90, 180, 270}"
proof (induction n)
  case 0
  then show ?case by simp
next
  case (Suc n)
  from handleRotate_in [OF Suc.IH [OF Suc.prems]] show ?case by simp
qed

lemma handleRotate4:
  "rotation (viewerState s) \<in> {0, 90, 180, 270} \<Longrightarrow>
   handleRotate (handleRotate (handleRotate (handleRotate s))) = s"
  using rot4 [of "rotation (viewerState s)"] by (simp add: handleRotate_def)

lemma rot_multiple:
  assumes "0 \<le> (k::int)"
  shows "(90 * k + 90) smod (360::int) \<in> {0, 90, 180, 270}"
proof -
  have nn: "0 \<le> 90 * k + 90" using assms by simp
  have e: "(90 * k + 90) smod (360::int) = (90 * k + 90) mod 360"
    using nn unfolding signed_modulo_int_def by (cases "90 * k + 90 = 0") simp_all
  have "(90 * k + 90) mod (360::int) = (90 * (k + 1)) mod (90 * 4)"
    by (simp add: algebra_simps)
  also have "\<dots> = 90 * ((k + 1) mod 4)"
    by (rule mult_mod_right [symmetric])
  finally have f: "(90 * k + 90) mod (360::int) = 90 * ((k + 1) mod 4)" .
  have "0 \<le> (k + 1) mod 4" "(k + 1) mod 4 < 4" by simp_all
  then have "(k + 1) mod 4 = 0 \<or> (k + 1) mod 4 = 1 \<or> (k + 1) mod 4 = 2 \<or> (k + 1) mod 4 = 3"
    by linarith
  then show ?thesis unfolding e f by auto
qed

lemma handleRotate_multiple:
  "0 \<le> k \<Longrightarrow> rotation (viewerState s) = 90 * k \<Longrightarrow>
   rotation (viewerState (handleRotate s)) \<in> {0, 90, 180, 270}"
  using rot_multiple [of k] by (simp add: handleRotate_def)

text \<open>
  C6. \<open>handleRotate\<close> sets the rotation to (rotation + 90) % 360. From a rotation in
  {0, 90, 180, 270}, four rotations give back the state they started from, and after
  any number of rotations the rotation is still in {0, 90, 180, 270}. More generally a
  rotation from any multiple \<open>90 * k\<close> of 90 with \<open>k\<close> not negative lands in
  {0, 90, 180, 270}.
\<close>

theorem C6_rotate_cycle:
  assumes "rotation (viewerState s) \<in> {0, 90, 180, 270}"
  shows "rotation (viewerState (handleRotate s)) = (rotation (viewerState s) + 90) smod 360
       \<and> handleRotate (handleRotate (handleRotate (handleRotate s))) = s
       \<and> rotation (viewerState ((handleRotate ^^ n) s)) \<in> {0, 90, 180, 270}
       \<and> (0 \<le> k \<and> rotation (viewerState s') = 90 * k
            \<longrightarrow> rotation (viewerState (handleRotate s')) \<in> {0, 90, 180, 270})"
  using handleRotate4 [OF assms] handleRotate_funpow_in [OF assms, of n]
    handleRotate_multiple [of k s']
  by (simp add: handleRotate_def)

theorem C6_rotate_cycle_witness:
  "rotation (viewerState initialViewer) \<in> {0, 90, 180, 270}
   \<and> (0::int) \<le> 0 \<and> rotation (viewerState initialViewer) = 90 * 0
   \<and> rotation (viewerState (handleRotate initialViewer)) = 90
   \<and> rotation (viewerState (handleRotate (handleRotate initialViewer))) = 180
   \<and> rotation (viewerState (handleRotate (handleRotate (handleRotate initialViewer)))) = 270
   \<and> handleRotate (handleRotate (handleRotate (handleRotate initialViewer))) = initialViewer"
  using C6_rotate_cycle [where s = initialViewer and n = 0 and k = 0 and s' = initialViewer]
  by (simp add: initialViewer_def handleRotate_def rot_values)

subsection \<open>Dragging\<close>

lemma mouseMoves_append: "mouseMoves (ms @ ns) s = mouseMoves ns (mouseMoves ms s)"
  by (induction ms arbitrary: s) simp_all

lemma handleMouseMove_frame:
  "viewerState (handleMouseMove m s) = viewerState s
   \<and> isDragging (handleMouseMove m s) = isDragging s
   \<and> dragStart (handleMouseMove m s) = dragStart s"
  by (simp add: handleMouseMove_def)

lemma mouseMoves_frame:
  "viewerState (mouseMoves ms s) = viewerState s
   \<and> isDragging (mouseMoves ms s) = isDragging s
   \<and> dragStart (mouseMoves ms s) = dragStart s"
  by (induction ms arbitrary: s) (simp_all add: handleMouseMove_frame)

lemma drag_last_move:
  assumes "isDragging s" and "zoom (viewerState s) > 1"
  shows "panOffset (mouseMoves (ms @ [m]) s) =
          \<lparr> vx = clientX m - vx (dragStart s), vy = clientY m - vy (dragStart s) \<rparr>"
  using assms by (simp add: mouseMoves_append handleMouseMove_def mouseMoves_frame)

text \<open>
  C7. With zoom above 1, a press makes the tracker Dragging and records the origin
  \<open>dragStart\<close> = pointer position - \<open>panOffset\<close>, leaving \<open>panOffset\<close>; after any
  sequence of moves, \<open>panOffset\<close> is the position of the last move minus that origin,
  whatever the moves before it were.
\<close>

theorem C7_drag_sets_pan_from_origin:
  assumes "zoom (viewerState s) > 1"
  shows "isDragging (handleMouseDown e s)
       \<and> dragStart (handleMouseDown e s) =
           \<lparr> vx = clientX e - vx (panOffset s), vy = clientY e - vy (panOffset s) \<rparr>
       \<and> panOffset (handleMouseDown e s) = panOffset s
       \<and> panOffset (mouseMoves (ms @ [m]) (handleMouseDown e s)) =
           \<lparr> vx = clientX m - vx (dragStart (handleMouseDown e s)),
             vy = clientY m - vy (dragStart (handleMouseDown e s)) \<rparr>"
proof -
  have d: "isDragging (handleMouseDown e s)"
    and z: "zoom (viewerState (handleMouseDown e s)) > 1"
    using assms by (simp_all add: handleMouseDown_def)
  from drag_last_move [OF d z, of ms m] assms show ?thesis
    by (simp add: handleMouseDown_def)
qed

theorem C7_drag_sets_pan_from_origin_witness:
  "zoom (viewerState (initialViewer\<lparr> viewerState := (viewerState initialViewer)\<lparr> zoom := 2 \<rparr> \<rparr>)) > 1
   \<and> dragStart (handleMouseDown \<lparr>clientX = 100, clientY = 100\<rparr>
        (initialViewer\<lparr> viewerState := (viewerState initialViewer)\<lparr> zoom := 2 \<rparr> \<rparr>))
       = \<lparr> vx = 100, vy = 100 \<rparr>
   \<and> panOffset (mouseMoves ([] @ [\<lparr>clientX = 130, clientY = 100\<rparr>])
        (handleMouseDown \<lparr>clientX = 100, clientY = 100\<rparr>
          (initialViewer\<lparr> viewerState := (viewerState initialViewer)\<lparr> zoom := 2 \<rparr> \<rparr>)))
       = \<lparr> vx = 30, vy = 0 \<rparr>"
  using C7_drag_sets_pan_from_origin
    [of "initialViewer\<lparr> viewerState := (viewerState initialViewer)\<lparr> zoom := 2 \<rparr> \<rparr>"
       "\<lparr>clientX = 100, clientY = 100\<rparr>" "[]" "\<lparr>clientX = 130, clientY = 100\<rparr>"]
  by (simp add: initialViewer_def)

subsection \<open>Pan offset in the rendered transform\<close>

lemmas handler_defs =
  handleZoom_def handleRotate_def handleContrastChange_def handleBrightnessChange_def
  handleReset_def handleMouseDown_def handleMouseMove_def handleMouseUp_def
  handleTouchStart_def handleTouchMove_def handleTouchEnd_def handleKeyDown_def

lemma step_zoom_bounds:
  "0.1 \<le> zoom (viewerState s) \<and> zoom (viewerState s) \<le> 5 \<Longrightarrow>
   0.1 \<le> zoom (viewerState (step s e)) \<and> zoom (viewerState (step s e)) \<le> 5"
  by (cases e) (auto simp: handler_defs)

lemma run_zoom_bounds:
  "0.1 \<le> zoom (viewerState (run es)) \<and> zoom (viewerState (run es)) \<le> 5"
proof (induction es rule: rev_induct)
  case Nil
  show ?case by (simp add: run_def initialViewer_def)
next
  case (snoc e es)
  from step_zoom_bounds [OF snoc.IH, of e] show ?case by (simp add: run_def)
qed

lemma step_pan_zoom_le1:
  "zoom (viewerState s) \<le> 1 \<Longrightarrow>
   panOffset (step s e) = panOffset s \<or> panOffset (step s e) = \<lparr> vx = 0, vy = 0 \<rparr>"
  by (cases e) (auto simp: handler_defs)

lemma step_pan_changes:
  "panOffset (step s e) = panOffset s
   \<or> (panOffset (step s e) = \<lparr> vx = 0, vy = 0 \<rparr> \<and> (e = ResetClick \<or> e = KeyDown True ''0''))
   \<or> (isDragging s \<and> zoom (viewerState s) > 1 \<and> (\<exists>p. e = MouseMove p \<or> e = TouchMove [p]))"
proof (cases e)
  case (TouchMove ts)
  show ?thesis
  proof (cases "isDragging s \<and> zoom (viewerState s) > 1 \<and> length ts = 1")
    case True
    then obtain p where "ts = [p]" by (cases ts) auto
    with True TouchMove show ?thesis by simp
  next
    case False
    with TouchMove show ?thesis by (auto simp: handleTouchMove_def)
  qed
qed (auto simp: handler_defs)

lemma handleZoom_frame:
  "panOffset (handleZoom d s) = panOffset s
   \<and> isImageError (handleZoom d s) = isImageError s
   \<and> rotation (viewerState (handleZoom d s)) = rotation (viewerState s)"
  by (simp add: handleZoom_def)

lemma zoomAll_frame:
  "panOffset (zoomAll ds s) = panOffset s
   \<and> isImageError (zoomAll ds s) = isImageError s
   \<and> rotation (viewerState (zoomAll ds s)) = rotation (viewerState s)"
  by (induction ds arbitrary: s) (simp_all add: handleZoom_frame)

lemma zoomAll_run: "zoomAll ds (run es) = run (es @ map ZoomClick ds)"
proof -
  have "zoomAll ds s = foldl step s (map ZoomClick ds)" for s
    by (induction ds arbitrary: s) simp_all
  then show ?thesis by (simp add: run_def)
qed

lemma vec2_zero_iff: "(vx v = 0 \<and> vy v = 0) = (v = \<lparr> vx = 0, vy = 0 \<rparr>)"
  by (cases v) simp

lemma imgTransform_no_pan_iff:
  assumes "zoom (viewerState s) \<noteq> 0" and "\<not> isImageError s"
  shows "imgTransform s =
           Some [ Scale (zoom (viewerState s)), RotateDeg (rotation (viewerState s)),
                  TranslatePx 0 0 ]
         \<longleftrightarrow> panOffset s = \<lparr> vx = 0, vy = 0 \<rparr>"
  using assms vec2_zero_iff [of "panOffset s"] by (simp add: imgTransform_def)

text \<open>
  C4, as stated, fails. Zoom in once, drag the image by 30 pixels, release, and zoom out
  twice: the zoom is 5/6, the pan offset is still (30, 0), the image is rendered and its
  transform ends with \<open>translate(36px, 0px)\<close>.
\<close>

theorem C4_pan_applied_at_zoom_le_1_counterexample:
  "zoom (viewerState (run [ZoomClick In, MouseDown \<lparr>clientX = 0, clientY = 0\<rparr>,
        MouseMove \<lparr>clientX = 30, clientY = 0\<rparr>, MouseUp, ZoomClick Out, ZoomClick Out])) \<le> 1
   \<and> imgTransform (run [ZoomClick In, MouseDown \<lparr>clientX = 0, clientY = 0\<rparr>,
        MouseMove \<lparr>clientX = 30, clientY = 0\<rparr>, MouseUp, ZoomClick Out, ZoomClick Out])
      = Some [Scale (5 / 6), RotateDeg 0, TranslatePx 36 0]"
  by (simp add: run_def initialViewer_def handleZoom_def handleMouseDown_def
        handleMouseMove_def handleMouseUp_def imgTransform_def)

text \<open>
  C4, amended. In every reachable state in which the image is rendered (no image
  error), its transform translates by \<open>panOffset / zoom\<close> whatever the zoom is, so the
  translation is zero exactly when \<open>panOffset\<close> is (0, 0). What depends on the zoom is
  the change of \<open>panOffset\<close>: an event changes it only as a move of a drag while the
  zoom is above 1, or as a reset, which sets it to (0, 0); so an event handled while the
  zoom is at most 1 leaves \<open>panOffset\<close> as it is or sets it to (0, 0). A zoom command
  never changes \<open>panOffset\<close>: after any sequence of zoom commands (a reachable state
  again) the offset is the same, and an offset that is not (0, 0) is still applied to
  the rendered image, also when the zoom has gone down to 1 or below.
\<close>

theorem C4_pan_render_amended:
  "imgTransform (run es) =
      (if isImageError (run es) then None
       else Some [ Scale (zoom (viewerState (run es))),
                   RotateDeg (rotation (viewerState (run es))),
                   TranslatePx (vx (panOffset (run es)) / zoom (viewerState (run es)))
                               (vy (panOffset (run es)) / zoom (viewerState (run es))) ])
   \<and> (\<not> isImageError (run es) \<longrightarrow>
        (imgTransform (run es) =
           Some [ Scale (zoom (viewerState (run es))),
                  RotateDeg (rotation (viewerState (run es))),
                  TranslatePx 0 0 ]
         \<longleftrightarrow> panOffset (run es) = \<lparr> vx = 0, vy = 0 \<rparr>))
   \<and> (panOffset (step (run es) e) = panOffset (run es)
        \<or> (panOffset (step (run es) e) = \<lparr> vx = 0, vy = 0 \<rparr>
             \<and> (e = ResetClick \<or> e = KeyDown True ''0''))
        \<or> (isDragging (run es) \<and> zoom (viewerState (run es)) > 1
             \<and> (\<exists>p. e = MouseMove p \<or> e = TouchMove [p])))
   \<and> (zoom (viewerState (run es)) \<le> 1 \<longrightarrow>
        panOffset (step (run es) e) = panOffset (run es)
      \<or> panOffset (step (run es) e) = \<lparr> vx = 0, vy = 0 \<rparr>)
   \<and> panOffset (handleZoom d (run es)) = panOffset (run es)
   \<and> zoomAll ds (run es) = run (es @ map ZoomClick ds)
   \<and> panOffset (zoomAll ds (run es)) = panOffset (run es)
   \<and> (\<not> isImageError (run es) \<and> panOffset (run es) \<noteq> \<lparr> vx = 0, vy = 0 \<rparr> \<longrightarrow>
        imgTransform (zoomAll ds (run es)) =
          Some [ Scale (zoom (viewerState (zoomAll ds (run es)))),
                 RotateDeg (rotation (viewerState (run es))),
                 TranslatePx (vx (panOffset (run es)) / zoom (viewerState (zoomAll ds (run es))))
                             (vy (panOffset (run es)) / zoom (viewerState (zoomAll ds (run es)))) ]
        \<and> imgTransform (zoomAll ds (run es)) \<noteq>
          Some [ Scale (zoom (viewerState (zoomAll ds (run es)))),
                 RotateDeg (rotation (viewerState (run es))),
                 TranslatePx 0 0 ])"
proof -
  let ?s = "run es" and ?t = "zoomAll ds (run es)"
  have nz: "zoom (viewerState ?s) \<noteq> 0"
    using run_zoom_bounds [of es] by auto
  have nz': "zoom (viewerState ?t) \<noteq> 0"
    using run_zoom_bounds [of "es @ map ZoomClick ds"] by (auto simp: zoomAll_run)
  have c1: "imgTransform ?s =
      (if isImageError ?s then None
       else Some [ Scale (zoom (viewerState ?s)), RotateDeg (rotation (viewerState ?s)),
                   TranslatePx (vx (panOffset ?s) / zoom (viewerState ?s))
                               (vy (panOffset ?s) / zoom (viewerState ?s)) ])"
    by (simp add: imgTransform_def)
  have c2: "\<not> isImageError ?s \<longrightarrow>
        (imgTransform ?s =
           Some [ Scale (zoom (viewerState ?s)), RotateDeg (rotation (viewerState ?s)),
                  TranslatePx 0 0 ]
         \<longleftrightarrow> panOffset ?s = \<lparr> vx = 0, vy = 0 \<rparr>)"
    using imgTransform_no_pan_iff [OF nz] by blast
  note c3 = step_pan_changes [of ?s e]
  have c4: "zoom (viewerState ?s) \<le> 1 \<longrightarrow>
        panOffset (step ?s e) = panOffset ?s \<or> panOffset (step ?s e) = \<lparr> vx = 0, vy = 0 \<rparr>"
    using step_pan_zoom_le1 [of ?s e] by blast
  have c5: "panOffset (handleZoom d ?s) = panOffset ?s"
    by (simp add: handleZoom_frame)
  note c6 = zoomAll_run [of ds es]
  have c7: "panOffset ?t = panOffset ?s"
    by (simp add: zoomAll_frame)
  have c8: "\<not> isImageError ?s \<and> panOffset ?s \<noteq> \<lparr> vx = 0, vy = 0 \<rparr> \<longrightarrow>
        imgTransform ?t =
          Some [ Scale (zoom (viewerState ?t)), RotateDeg (rotation (viewerState ?s)),
                 TranslatePx (vx (panOffset ?s) / zoom (viewerState ?t))
                             (vy (panOffset ?s) / zoom (viewerState ?t)) ]
        \<and> imgTransform ?t \<noteq>
          Some [ Scale (zoom (viewerState ?t)), RotateDeg (rotation (viewerState ?s)),
                 TranslatePx 0 0 ]"
  proof
    assume a: "\<not> isImageError ?s \<and> panOffset ?s \<noteq> \<lparr> vx = 0, vy = 0 \<rparr>"
    then have e: "\<not> isImageError ?t" and p: "panOffset ?t \<noteq> \<lparr> vx = 0, vy = 0 \<rparr>"
      by (simp_all add: zoomAll_frame)
    have "imgTransform ?t =
          Some [ Scale (zoom (viewerState ?t)), RotateDeg (rotation (viewerState ?s)),
                 TranslatePx (vx (panOffset ?s) / zoom (viewerState ?t))
                             (vy (panOffset ?s) / zoom (viewerState ?t)) ]"
      using e by (simp add: imgTransform_def zoomAll_frame)
    moreover have "imgTransform ?t \<noteq>
          Some [ Scale (zoom (viewerState ?t)), RotateDeg (rotation (viewerState ?s)),
                 TranslatePx 0 0 ]"
      using imgTransform_no_pan_iff [OF nz' e] p by (simp add: zoomAll_frame)
    ultimately show "imgTransform ?t =
          Some [ Scale (zoom (viewerState ?t)), RotateDeg (rotation (viewerState ?s)),
                 TranslatePx (vx (panOffset ?s) / zoom (viewerState ?t))
                             (vy (panOffset ?s) / zoom (viewerState ?t)) ]
        \<and> imgTransform ?t \<noteq>
          Some [ Scale (zoom (viewerState ?t)), RotateDeg (rotation (viewerState ?s)),
                 TranslatePx 0 0 ]" by (rule conjI)
  qed
  from c1 c2 c3 c4 c5 c6 c7 c8 show ?thesis by (intro conjI)
qed

theorem C4_pan_render_amended_witness:
  "\<not> isImageError (run [ZoomClick In, MouseDown \<lparr>clientX = 0, clientY = 0\<rparr>,
        MouseMove \<lparr>clientX = 30, clientY = 0\<rparr>, MouseUp, ZoomClick Out])
   \<and> zoom (viewerState (run [ZoomClick In, MouseDown \<lparr>clientX = 0, clientY = 0\<rparr>,
        MouseMove \<lparr>clientX = 30, clientY = 0\<rparr>, MouseUp, ZoomClick Out])) \<le> 1
   \<and> panOffset (run [ZoomClick In, MouseDown \<lparr>clientX = 0, clientY = 0\<rparr>,
        MouseMove \<lparr>clientX = 30, clientY = 0\<rparr>, MouseUp, ZoomClick Out])
        \<noteq> \<lparr> vx = 0, vy = 0 \<rparr>
   \<and> panOffset (step (run [ZoomClick In, MouseDown \<lparr>clientX = 0, clientY = 0\<rparr>,
        MouseMove \<lparr>clientX = 30, clientY = 0\<rparr>, MouseUp, ZoomClick Out])
          (MouseMove \<lparr>clientX = 80, clientY = 5\<rparr>)) = \<lparr> vx = 30, vy = 0 \<rparr>
   \<and> imgTransform (run [ZoomClick In, MouseDown \<lparr>clientX = 0, clientY = 0\<rparr>,
        MouseMove \<lparr>clientX = 30, clientY = 0\<rparr>, MouseUp, ZoomClick Out])
      = Some [Scale 1, RotateDeg 0, TranslatePx 30 0]
   \<and> imgTransform (zoomAll [Out] (run [ZoomClick In, MouseDown \<lparr>clientX = 0, clientY = 0\<rparr>,
        MouseMove \<lparr>clientX = 30, clientY = 0\<rparr>, MouseUp, ZoomClick Out]))
      = Some [Scale (5 / 6), RotateDeg 0, TranslatePx 36 0]"
  using C4_pan_render_amended [where es = "[ZoomClick In, MouseDown \<lparr>clientX = 0, clientY = 0\<rparr>,
        MouseMove \<lparr>clientX = 30, clientY = 0\<rparr>, MouseUp, ZoomClick Out]"
        and e = "MouseMove \<lparr>clientX = 80, clientY = 5\<rparr>" and d = Out and ds = "[Out]"]
  by (simp add: run_def initialViewer_def handleZoom_def handleMouseDown_def
        handleMouseMove_def handleMouseUp_def imgTransform_def)

subsection \<open>Export\<close>

lemma ulp_eq:
  assumes "2 ^ k \<le> \<bar>v\<bar>" and "\<bar>v\<bar> < 2 ^ Suc k"
  shows "ulp v = 2 powi (int k - 52)"
proof -
  define n where "n = \<lfloor>\<bar>v\<bar> * 2 ^ 1074\<rfloor>"
  have "(2::real) ^ k * 2 ^ 1074 \<le> \<bar>v\<bar> * 2 ^ 1074"
    using assms(1) by (rule mult_right_mono) simp
  then have "of_int ((2::int) ^ (k + 1074)) \<le> \<bar>v\<bar> * 2 ^ 1074"
    by (simp only: power_add of_int_power of_int_numeral of_int_mult)
  then have lo: "(2::int) ^ (k + 1074) \<le> n"
    unfolding n_def by (simp only: le_floor_iff)
  have "\<bar>v\<bar> * 2 ^ 1074 < (2::real) ^ Suc k * 2 ^ 1074"
    using assms(2) by (rule mult_strict_right_mono) simp
  then have "\<bar>v\<bar> * 2 ^ 1074 < of_int ((2::int) ^ (Suc k + 1074))"
    by (simp only: power_add of_int_power of_int_numeral of_int_mult)
  then have hi: "n < (2::int) ^ (Suc k + 1074)"
    unfolding n_def by (simp only: floor_less_iff)
  have "bitlen n \<le> int (Suc k + 1074)"
    unfolding bitlen_le_iff_power nat_int using hi by (simp add: add.commute)
  moreover have "int (Suc k + 1074) \<le> bitlen n"
    unfolding bitlen_ge_iff_power nat_int using lo by (simp add: add.commute)
  ultimately have b: "bitlen n = int k + 1075" by simp
  have "ulp v = 2 powi (max (bitlen n) 53 - 1127)"
    unfolding ulp_def n_def ..
  then show ?thesis unfolding b by simp
qed

lemma ulp_pos: "0 < ulp v"
  by (simp add: ulp_def)

lemma roundHalfEven_nonneg: "0 \<le> y \<Longrightarrow> 0 \<le> roundHalfEven y"
  by (simp add: roundHalfEven_def)

lemma roundHalfEven_of_int: "roundHalfEven (of_int k) = k"
  by (simp add: roundHalfEven_def)

lemma toDouble_nonneg: "0 \<le> v \<Longrightarrow> 0 \<le> toDouble v"
  using ulp_pos [of v] roundHalfEven_nonneg [of "\<bar>v\<bar> / ulp v"]
  by (simp add: toDouble_def sgn_real_def)

text \<open>Every whole number below \<open>2^53\<close> is a double.\<close>

lemma toDouble_of_int:
  assumes "0 \<le> n" and "n < 2 ^ 53"
  shows "toDouble (of_int n) = of_int n"
proof (cases "n = 0")
  case True
  then show ?thesis by (simp add: toDouble_def)
next
  case False
  with assms have pos: "0 < n" by simp
  define k where "k = nat (bitlen n - 1)"
  have b1: "1 \<le> bitlen n" using pos by (simp add: bitlen_ge_iff_power)
  have b53: "bitlen n \<le> 53" using assms(2) by (simp add: bitlen_le_iff_power)
  have k52: "k \<le> 52" using b53 b1 by (simp add: k_def)
  have bk: "nat (bitlen n) = Suc k" using b1 by (simp add: k_def)
  from bitlen_bounds [OF pos] have lo: "2 ^ k \<le> n" and hi: "n < 2 ^ Suc k"
    by (simp_all add: k_def bk [unfolded k_def])
  have lo': "(2::real) ^ k \<le> \<bar>of_int n\<bar>"
  proof -
    have "of_int (2 ^ k) \<le> (of_int n :: real)" using lo by (simp only: of_int_le_iff)
    then show ?thesis using pos by simp
  qed
  have hi': "\<bar>of_int n :: real\<bar> < 2 ^ Suc k"
  proof -
    have "(of_int n :: real) < of_int (2 ^ Suc k)" using hi by (simp only: of_int_less_iff)
    then show ?thesis using pos by simp
  qed
  have "ulp (of_int n) = 2 powi (int k - 52)" using lo' hi' by (rule ulp_eq)
  also have "\<dots> = 1 / 2 ^ (52 - k)"
    using k52 by (simp add: power_int_def nat_diff_distrib' divide_simps)
  finally have u: "ulp (of_int n) = 1 / 2 ^ (52 - k)" .
  have "\<bar>of_int n :: real\<bar> / ulp (of_int n) = of_int (n * 2 ^ (52 - k))"
    using pos by (simp add: u)
  then have r: "roundHalfEven (\<bar>of_int n :: real\<bar> / ulp (of_int n)) = n * 2 ^ (52 - k)"
    by (simp only: roundHalfEven_of_int)
  show ?thesis unfolding toDouble_def r using pos by (simp add: u)
qed

lemma toDouble_of_nat: "n \<le> 2147483647 \<Longrightarrow> toDouble (real n) = real n"
  using toDouble_of_int [of "int n"] by simp

lemma toDouble_whole: "toDouble 50 = 50" "toDouble 100 = 100" "toDouble 200 = 200"
  using toDouble_of_nat [of 50] toDouble_of_nat [of 100] toDouble_of_nat [of 200]
  by simp_all

text \<open>
  Three products as the platform computes them: 606/5 is 101 times the zoom 6/5 of the
  model after one zoom in; the other two are 100 times and 50 times
  5404319552844595 / 4503599627370496, the double nearest to 1.2, which is the zoom
  the component holds after one zoom in.
\<close>

lemma toDouble_101_zoom: "toDouble (606 / 5) = 8528691794332877 / 70368744177664"
proof -
  have "ulp (606 / 5) = 2 powi (int 6 - 52)"
    by (rule ulp_eq) simp_all
  then have u: "ulp (606 / 5) = 1 / 2 ^ 46"
    by (simp add: power_int_def divide_simps)
  show ?thesis unfolding toDouble_def u by (simp add: roundHalfEven_def)
qed

lemma toDouble_100_zoom: "toDouble (135107988821114875 / 1125899906842624) = 120"
proof -
  have "ulp (135107988821114875 / 1125899906842624) = 2 powi (int 6 - 52)"
    by (rule ulp_eq) simp_all
  then have u: "ulp (135107988821114875 / 1125899906842624) = 1 / 2 ^ 46"
    by (simp add: power_int_def divide_simps)
  show ?thesis unfolding toDouble_def u by (simp add: roundHalfEven_def)
qed

lemma toDouble_50_zoom: "toDouble (135107988821114875 / 2251799813685248) = 60"
proof -
  have "ulp (135107988821114875 / 2251799813685248) = 2 powi (int 5 - 52)"
    by (rule ulp_eq) simp_all
  then have u: "ulp (135107988821114875 / 2251799813685248) = 1 / 2 ^ 47"
    by (simp add: power_int_def divide_simps)
  show ?thesis unfolding toDouble_def u by (simp add: roundHalfEven_def)
qed

lemma setDimension_floor:
  assumes "0 \<le> v" and "v < 2147483648"
  shows "setDimension d v = nat \<lfloor>v\<rfloor>"
proof -
  have lt: "\<lfloor>v\<rfloor> < 2147483648" using assms(2) by (simp add: floor_less_iff)
  have ge: "0 \<le> \<lfloor>v\<rfloor>" using assms(1) by simp
  have m: "\<lfloor>v\<rfloor> mod 2 ^ 32 = \<lfloor>v\<rfloor>" using lt ge by simp
  have le: "nat \<lfloor>v\<rfloor> \<le> 2147483647" using lt ge by linarith
  show ?thesis unfolding setDimension_def toUnsignedLong_def
    using assms(1) m le by simp
qed

lemma handleSave_size:
  "handleSave s (Some img) True = Some c \<Longrightarrow>
   canvas_width c =
     setDimension 300 (toDouble (real (naturalWidth img) * zoom (viewerState s)))
   \<and> canvas_height c =
     setDimension 150 (toDouble (real (naturalHeight img) * zoom (viewerState s)))"
  by (auto simp: handleSave_def Let_def)

lemma handleSave_Some: "\<exists>c. handleSave s (Some img) True = Some c"
  by (simp add: handleSave_def Let_def)

text \<open>
  C8, as stated, fails: the size of a canvas is a whole number of pixels. After one
  zoom in (zoom 1.2) an image 101 pixels wide is exported on a canvas 121 pixels wide;
  101 * 1.2 is 121.2, and the product as a double is not a whole number either.
\<close>

theorem C8_export_surface_counterexample:
  "map_option canvas_width
     (handleSave (run [ZoomClick In])
        (Some \<lparr> naturalWidth = 101, naturalHeight = 50, img_src = ''scan.png'' \<rparr>) True)
     = Some 121
   \<and> real 121 \<noteq> real 101 * zoom (viewerState (run [ZoomClick In]))
   \<and> real 121 \<noteq> toDouble (real 101 * zoom (viewerState (run [ZoomClick In])))"
  by (simp add: run_def initialViewer_def handleZoom_def handleSave_def Let_def
        setDimension_def toUnsignedLong_def toDouble_101_zoom)

text \<open>
  C8, amended. With a zoom that is not negative and scaled sizes below \<open>2^31\<close>, the
  exported canvas is as many pixels wide as the integer part of the product
  \<^verbatim>\<open>naturalWidth * zoom\<close> (the product of two doubles, rounded to a double), and as
  many pixels high as the integer part of \<^verbatim>\<open>naturalHeight * zoom\<close>. When the exact
  product is a whole number, that number is the size. The size is the same for every
  rotation.
\<close>

theorem C8_export_surface_amended:
  assumes "0 \<le> zoom (viewerState s)"
    and "toDouble (real (naturalWidth img) * zoom (viewerState s)) < 2147483648"
    and "toDouble (real (naturalHeight img) * zoom (viewerState s)) < 2147483648"
  shows "\<exists>c c'. handleSave s (Some img) True = Some c
           \<and> canvas_width c = nat \<lfloor>toDouble (real (naturalWidth img) * zoom (viewerState s))\<rfloor>
           \<and> canvas_height c = nat \<lfloor>toDouble (real (naturalHeight img) * zoom (viewerState s))\<rfloor>
           \<and> (real (naturalWidth img) * zoom (viewerState s) = real n \<and> n \<le> 2147483647
                \<longrightarrow> canvas_width c = n)
           \<and> (real (naturalHeight img) * zoom (viewerState s) = real m \<and> m \<le> 2147483647
                \<longrightarrow> canvas_height c = m)
           \<and> handleSave (s\<lparr> viewerState := (viewerState s)\<lparr> rotation := r \<rparr> \<rparr>) (Some img) True
               = Some c'
           \<and> canvas_width c' = canvas_width c \<and> canvas_height c' = canvas_height c"
proof -
  let ?s' = "s\<lparr> viewerState := (viewerState s)\<lparr> rotation := r \<rparr> \<rparr>"
  let ?w = "toDouble (real (naturalWidth img) * zoom (viewerState s))"
  let ?h = "toDouble (real (naturalHeight img) * zoom (viewerState s))"
  obtain c where c: "handleSave s (Some img) True = Some c"
    using handleSave_Some by blast
  obtain c' where c': "handleSave ?s' (Some img) True = Some c'"
    using handleSave_Some by blast
  have w0: "0 \<le> ?w" and h0: "0 \<le> ?h"
    using assms(1) by (simp_all add: toDouble_nonneg)
  have w: "canvas_width c = nat \<lfloor>?w\<rfloor>" and h: "canvas_height c = nat \<lfloor>?h\<rfloor>"
    using handleSave_size [OF c] setDimension_floor [OF w0 assms(2)]
      setDimension_floor [OF h0 assms(3)] by simp_all
  have w': "canvas_width c' = canvas_width c" and h': "canvas_height c' = canvas_height c"
    using handleSave_size [OF c] handleSave_size [OF c'] by simp_all
  have wn: "real (naturalWidth img) * zoom (viewerState s) = real n \<and> n \<le> 2147483647
              \<longrightarrow> canvas_width c = n"
    using w toDouble_of_nat [of n] by auto
  have hm: "real (naturalHeight img) * zoom (viewerState s) = real m \<and> m \<le> 2147483647
              \<longrightarrow> canvas_height c = m"
    using h toDouble_of_nat [of m] by auto
  from c c' w h w' h' wn hm show ?thesis by blast
qed

theorem C8_export_surface_amended_witness:
  "0 \<le> zoom (viewerState
      (initialViewer\<lparr> viewerState := (viewerState initialViewer)\<lparr> zoom := 2 \<rparr> \<rparr>))
   \<and> toDouble (real (naturalWidth
          \<lparr> naturalWidth = 100, naturalHeight = 50, img_src = ''scan.png'' \<rparr>) * 2) < 2147483648
   \<and> toDouble (real (naturalHeight
          \<lparr> naturalWidth = 100, naturalHeight = 50, img_src = ''scan.png'' \<rparr>) * 2) < 2147483648
   \<and> real (naturalWidth \<lparr> naturalWidth = 100, naturalHeight = 50, img_src = ''scan.png'' \<rparr>) * 2
       = real 200 \<and> (200::nat) \<le> 2147483647
   \<and> real (naturalHeight \<lparr> naturalWidth = 100, naturalHeight = 50, img_src = ''scan.png'' \<rparr>) * 2
       = real 100 \<and> (100::nat) \<le> 2147483647
   \<and> (\<exists>c'. handleSave
          (initialViewer\<lparr> viewerState := (viewerState initialViewer)\<lparr> zoom := 2 \<rparr> \<rparr>
             \<lparr> viewerState := (viewerState
                 (initialViewer\<lparr> viewerState := (viewerState initialViewer)\<lparr> zoom := 2 \<rparr> \<rparr>))
                   \<lparr> rotation := 90 \<rparr> \<rparr>)
          (Some \<lparr> naturalWidth = 100, naturalHeight = 50, img_src = ''scan.png'' \<rparr>) True = Some c'
        \<and> canvas_width c' = 200 \<and> canvas_height c' = 100)
   \<and> (\<exists>c. handleSave
          (initialViewer\<lparr> viewerState := (viewerState initialViewer)
             \<lparr> zoom := 5404319552844595 / 4503599627370496 \<rparr> \<rparr>)
          (Some \<lparr> naturalWidth = 100, naturalHeight = 50, img_src = ''scan.png'' \<rparr>) True = Some c
        \<and> canvas_width c = 120 \<and> canvas_height c = 60)"
proof -
  let ?img = "\<lparr> naturalWidth = 100, naturalHeight = 50, img_src = ''scan.png'' \<rparr>"
  let ?s2 = "initialViewer\<lparr> viewerState := (viewerState initialViewer)\<lparr> zoom := 2 \<rparr> \<rparr>"
  let ?sd = "initialViewer\<lparr> viewerState := (viewerState initialViewer)
               \<lparr> zoom := 5404319552844595 / 4503599627370496 \<rparr> \<rparr>"
  note d200 = toDouble_whole(3) and d100 = toDouble_whole(2)
  have a1: "0 \<le> zoom (viewerState ?s2)"
    and a2: "toDouble (real (naturalWidth ?img) * zoom (viewerState ?s2)) < 2147483648"
    and a3: "toDouble (real (naturalHeight ?img) * zoom (viewerState ?s2)) < 2147483648"
    by (simp_all add: initialViewer_def d200 d100)
  have b1: "0 \<le> zoom (viewerState ?sd)"
    and b2: "toDouble (real (naturalWidth ?img) * zoom (viewerState ?sd)) < 2147483648"
    and b3: "toDouble (real (naturalHeight ?img) * zoom (viewerState ?sd)) < 2147483648"
    by (simp_all add: initialViewer_def toDouble_100_zoom toDouble_50_zoom)
  from C8_export_surface_amended [OF a1 a2 a3, of 200 100 90]
    C8_export_surface_amended [OF b1 b2 b3, of 0 0 0] a1 a2 a3
  show ?thesis
    by (auto simp: initialViewer_def d200 d100 toDouble_100_zoom toDouble_50_zoom)
qed

lemma handleSave_viewerState:
  "viewerState s = viewerState s' \<Longrightarrow> handleSave s i c = handleSave s' i c"
  by (simp add: handleSave_def cong: if_cong option.case_cong)

lemma handleSave_draws_source:
  "handleSave s (Some img) b = Some c \<Longrightarrow> CtxDrawImage i x y w h \<in> set (ctx_calls c) \<Longrightarrow> i = img"
  by (auto simp: handleSave_def Let_def split: if_splits)

text \<open>
  C9. The export is a function of the four fields of \<open>viewerState\<close> (and of the image):
  two states with the same \<open>viewerState\<close> export the same canvas, so a change of
  \<open>panOffset\<close> does not change the export. The save handler sets no state: the state
  after the event is the state before it; and the image drawn on the new canvas is the
  source image as it was given.
\<close>

theorem C9_export_ignores_pan_and_keeps_state:
  "handleSave (s\<lparr> panOffset := p \<rparr>) imageRef hasCtx = handleSave s imageRef hasCtx
   \<and> (viewerState s = viewerState s' \<longrightarrow> handleSave s imageRef hasCtx = handleSave s' imageRef hasCtx)
   \<and> step s SaveClick = s
   \<and> (handleSave s (Some img) hasCtx = Some c \<and> CtxDrawImage i x y w h \<in> set (ctx_calls c)
        \<longrightarrow> i = img)"
  using handleSave_viewerState [of "s\<lparr> panOffset := p \<rparr>" s imageRef hasCtx]
    handleSave_viewerState [of s s' imageRef hasCtx]
    handleSave_draws_source [of s img hasCtx c i x y w h]
  by simp

theorem C9_export_ignores_pan_and_keeps_state_witness:
  "viewerState (handleZoom In initialViewer)
     = viewerState ((handleZoom In initialViewer)\<lparr> panOffset := \<lparr> vx = 30, vy = 0 \<rparr>,
                                                    isDragging := True \<rparr>)
   \<and> handleSave (handleZoom In initialViewer)
        (Some \<lparr> naturalWidth = 100, naturalHeight = 50, img_src = ''scan.png'' \<rparr>) True
     = handleSave ((handleZoom In initialViewer)\<lparr> panOffset := \<lparr> vx = 30, vy = 0 \<rparr>,
                                                   isDragging := True \<rparr>)
        (Some \<lparr> naturalWidth = 100, naturalHeight = 50, img_src = ''scan.png'' \<rparr>) True
   \<and> handleSave initialViewer
        (Some \<lparr> naturalWidth = 100, naturalHeight = 50, img_src = ''scan.png'' \<rparr>) True
     = Some \<lparr> canvas_width = 100, canvas_height = 50,
              ctx_filter = [ContrastPct 100, BrightnessPct 100],
              ctx_calls = [CtxDrawImage
                 \<lparr> naturalWidth = 100, naturalHeight = 50, img_src = ''scan.png'' \<rparr> 0 0 100 50] \<rparr>
   \<and> CtxDrawImage \<lparr> naturalWidth = 100, naturalHeight = 50, img_src = ''scan.png'' \<rparr> 0 0 100 50
       \<in> set (ctx_calls \<lparr> canvas_width = 100, canvas_height = 50,
              ctx_filter = [ContrastPct 100, BrightnessPct 100],
              ctx_calls = [CtxDrawImage
                 \<lparr> naturalWidth = 100, naturalHeight = 50, img_src = ''scan.png'' \<rparr> 0 0 100 50] \<rparr>)"
  using C9_export_ignores_pan_and_keeps_state
    [where s = "handleZoom In initialViewer" and p = "\<lparr> vx = 30, vy = 0 \<rparr>"
       and imageRef = "Some \<lparr> naturalWidth = 100, naturalHeight = 50, img_src = ''scan.png'' \<rparr>"
       and hasCtx = True
       and s' = "(handleZoom In initialViewer)\<lparr> panOffset := \<lparr> vx = 30, vy = 0 \<rparr>,
                                                    isDragging := True \<rparr>"]
  by (simp add: initialViewer_def handleSave_def Let_def setDimension_def toUnsignedLong_def
        toDouble_whole)

subsection \<open>File validation\<close>

lemma endsWith_suffix: "endsWith s t \<longleftrightarrow> suffix t s"
proof
  assume "endsWith s t"
  then have "s = take (length s - length t) s @ t"
    by (metis append_take_drop_id endsWith_def)
  then show "suffix t s" by (rule suffixI)
next
  assume "suffix t s"
  then obtain zs where "s = zs @ t" by (auto simp: suffix_def)
  then show "endsWith s t" by (simp add: endsWith_def)
qed

lemma array_some_iff: "array_some p xs \<longleftrightarrow> (\<exists>x \<in> set xs. p x)"
  by (induction xs) auto

lemma array_includes_iff: "array_includes xs v \<longleftrightarrow> v \<in> set xs"
  by (induction xs) auto

lemma lower_scan_DCM: "toLowerCase ''scan.DCM'' = ''scan.dcm''"
  by code_simp

lemma lower_scan_txt: "toLowerCase ''scan.txt'' = ''scan.txt''"
  by code_simp

lemma lower_scan_png: "toLowerCase ''scan.png'' = ''scan.png''"
  by code_simp

text \<open>
  C2. \<open>validateFile\<close> accepts a file exactly when (one of .dcm, .jpg, .jpeg, .png is a
  suffix of its lowercased name, or its MIME type is one of the five accepted types)
  and its size is at most 52428800 bytes. When the file is rejected,
  \<open>handleFileSelect\<close> adds one alert and changes nothing else; in particular the
  selected file is the one selected before.
\<close>

theorem C2_validateFile_iff:
  "(validateFile f \<longleftrightarrow>
      ((\<exists>ext \<in> {''.dcm'', ''.jpg'', ''.jpeg'', ''.png''}. suffix ext (toLowerCase (file_name f)))
        \<or> file_type f \<in> {''image/jpeg'', ''image/jpg'', ''image/png'', ''application/dicom'',
                           ''application/octet-stream''})
      \<and> file_size f \<le> 52428800)
   \<and> (\<not> validateFile f \<longrightarrow>
        handleFileSelect f dataURL sizeText s =
          s\<lparr> alerts := alerts s @
              [''Please select a valid medical image file (.dcm, .jpg, .jpeg, .png) under 50MB.''] \<rparr>
        \<and> fileInfo (handleFileSelect f dataURL sizeText s) = fileInfo s)"
  by (simp add: validateFile_def handleFileSelect_def array_some_iff array_includes_iff
      endsWith_suffix acceptedTypes_def acceptedMimeTypes_def)

theorem C2_validateFile_iff_witness:
  "validateFile \<lparr> file_name = ''scan.DCM'', file_type = [], file_size = 1048576 \<rparr>
   \<and> \<not> validateFile \<lparr> file_name = ''scan.txt'', file_type = ''text/plain'', file_size = 1024 \<rparr>
   \<and> \<not> validateFile \<lparr> file_name = ''scan.png'', file_type = ''image/png'', file_size = 62914560 \<rparr>
   \<and> validateFile \<lparr> file_name = ''scan.png'', file_type = ''image/png'', file_size = 52428800 \<rparr>
   \<and> handleFileSelect
        \<lparr> file_name = ''scan.txt'', file_type = ''text/plain'', file_size = 1024 \<rparr> [] ''1 KB''
        \<lparr> fileInfo = None, isDragOver = False, hasConsent = False, isAnalyzing = False,
          dragCounter = 0, isPulsing = False, showViewer = False, alerts = [] \<rparr>
      = \<lparr> fileInfo = None, isDragOver = False, hasConsent = False, isAnalyzing = False,
          dragCounter = 0, isPulsing = False, showViewer = False,
          alerts = [''Please select a valid medical image file (.dcm, .jpg, .jpeg, .png) under 50MB.''] \<rparr>"
  using C2_validateFile_iff
    [of "\<lparr> file_name = ''scan.txt'', file_type = ''text/plain'', file_size = 1024 \<rparr>"
        "[]" "''1 KB''"
        "\<lparr> fileInfo = None, isDragOver = False, hasConsent = False, isAnalyzing = False,
          dragCounter = 0, isPulsing = False, showViewer = False, alerts = [] \<rparr>"]
  by (simp add: validateFile_def lower_scan_DCM lower_scan_txt lower_scan_png endsWith_def
        acceptedTypes_def acceptedMimeTypes_def)

subsection \<open>Report\<close>

text \<open>
  C10. When \<open>handleAnalyze\<close> builds a report (a file is selected and consent is given)
  and \<^verbatim>\<open>Math.random()\<close> has returned a number in [0, 1), the risk level of the report is
  Low, its confidence is an integer from 70 to 99, and its scan type is
  \<^verbatim>\<open>DICOM CT Scan\<close> when the lowercased file name ends with \<^verbatim>\<open>.dcm\<close> and
  \<^verbatim>\<open>Medical Image\<close> otherwise.
\<close>

theorem C10_report_fields:
  assumes "0 \<le> rnd" and "rnd < 1" and "handleAnalyze s rnd date = Some rep"
  shows "riskLevel rep = Low
       \<and> 70 \<le> confidence rep \<and> confidence rep \<le> 99
       \<and> (\<exists>fi. fileInfo s = Some fi \<and>
            scanType rep = (if suffix ''.dcm'' (toLowerCase (file_name (info_file fi)))
                            then ''DICOM CT Scan'' else ''Medical Image''))"
proof -
  from assms(3) obtain fi where fi: "fileInfo s = Some fi"
    and rep: "rep = sampleReportData fi rnd date"
    by (auto simp: handleAnalyze_def split: option.splits if_splits)
  have "0 \<le> \<lfloor>rnd * 30\<rfloor>" using assms(1) by simp
  moreover have "\<lfloor>rnd * 30\<rfloor> < 30" using assms(2) by (simp add: floor_less_iff)
  ultimately show ?thesis using fi rep
    by (simp add: sampleReportData_def endsWith_suffix)
qed

theorem C10_report_fields_witness:
  "(0::real) \<le> 1 / 2 \<and> (1::real) / 2 < 1
   \<and> (\<exists>rep. handleAnalyze
         \<lparr> fileInfo = Some \<lparr> info_file = \<lparr> file_name = ''scan.DCM'', file_type = [],
                                            file_size = 1048576 \<rparr>,
                              preview = None, info_size = ''1 MB'' \<rparr>,
           isDragOver = False, hasConsent = True, isAnalyzing = False, dragCounter = 0,
           isPulsing = False, showViewer = False, alerts = [] \<rparr>
         (1 / 2) ''November 2, 2026'' = Some rep
       \<and> riskLevel rep = Low \<and> confidence rep = 85 \<and> scanType rep = ''DICOM CT Scan'')"
proof -
  let ?fi = "\<lparr> info_file = \<lparr> file_name = ''scan.DCM'', file_type = [], file_size = 1048576 \<rparr>,
               preview = None, info_size = ''1 MB'' \<rparr>"
  let ?s = "\<lparr> fileInfo = Some ?fi,
              isDragOver = False, hasConsent = True, isAnalyzing = False, dragCounter = 0,
              isPulsing = False, showViewer = False, alerts = [] \<rparr>"
  let ?rep = "sampleReportData ?fi (1 / 2) ''November 2, 2026''"
  have h: "handleAnalyze ?s (1 / 2) ''November 2, 2026'' = Some ?rep"
    by (simp add: handleAnalyze_def)
  have c: "confidence ?rep = 85" by (simp add: sampleReportData_def)
  have a: "(0::real) \<le> 1 / 2" and b: "(1::real) / 2 < 1" by simp_all
  have d: "suffix ''.dcm'' ''scan.dcm''" by (simp add: suffix_def)
  from C10_report_fields [OF a b h] c h d show ?thesis
    by (simp add: lower_scan_DCM)
qed

end
